theory Spec2Isabelle
  imports Complex_Main
begin

section \<open>The timeline store (src/stores/audioEditorStore.ts)\<close>

text \<open>
  The store is a single state object that every action reads with \<open>get()\<close> and
  replaces with \<open>set(...)\<close>. Each action is modelled as a function from the state
  before the call to the state after it. JavaScript numbers are modelled as reals
  (as integers for \<open>historyIndex\<close>, which only ever holds array positions);
  \<open>structuredClone\<close> is the identity on immutable HOL values. Identifiers that the
  source draws from \<open>Date.now()\<close> and \<open>Math.random()\<close> are parameters.
  Field names that occur in several interfaces carry a prefix.
\<close>

record Take =
  take_id :: string
  lineIndex :: int
  takeNumber :: int
  fileName :: string
  filePath :: string
  take_duration :: real
  timestamp :: string
  isSelected :: bool

record AudioRegion =
  region_id :: string
  region_start :: real
  region_end :: real
  color :: "string option"

record EnvelopePoint =
  point_id :: string
  time :: real
  volume :: real

record AudioTrack =
  track_id :: string
  track_take :: Take
  offset :: real
  track_duration :: real
  muted :: bool
  solo :: bool
  track_volume :: real
  gain :: real
  regions :: "AudioRegion list"
  envelopePoints :: "EnvelopePoint list"

text \<open>\<open>Partial<AudioTrack>\<close> and \<open>Partial<EnvelopePoint>\<close>: every field optional.\<close>

record TrackUpdates =
  u_id :: "string option"
  u_take :: "Take option"
  u_offset :: "real option"
  u_duration :: "real option"
  u_muted :: "bool option"
  u_solo :: "bool option"
  u_volume :: "real option"
  u_gain :: "real option"
  u_regions :: "AudioRegion list option"
  u_envelopePoints :: "EnvelopePoint list option"

record PointUpdates =
  pu_id :: "string option"
  pu_time :: "real option"
  pu_volume :: "real option"

record HistoryState =
  h_tracks :: "AudioTrack list"
  h_selectedTrackId :: "string option"
  h_selectedRegionStart :: "real option"
  h_selectedRegionEnd :: "real option"

datatype ToolMode = Select | Trim | Split | Envelope

datatype ClipboardType = RegionClip | TrackClip

record ClipboardData =
  clip_type :: ClipboardType
  clip_startTime :: real
  clip_endTime :: real
  clip_trackId :: string
  clip_filePath :: string

record AudioEditorState =
  tracks :: "AudioTrack list"
  selectedTrackId :: "string option"
  selectedRegionStart :: "real option"
  selectedRegionEnd :: "real option"
  cursorPosition :: real
  clipboard :: "ClipboardData option"
  isPlaying :: bool
  currentTime :: real
  duration :: real
  zoom :: real
  scrollLeft :: real
  toolMode :: ToolMode
  history :: "HistoryState list"
  historyIndex :: int

text \<open>
  The errors that reach a caller: an \<open>Error\<close> with its message, the \<open>TypeError\<close> of a
  property read on \<open>undefined\<close>, and the \<open>RangeError\<close> of an array that cannot grow.
\<close>

datatype js_error = Error string | TypeError | RangeError

definition initialState :: AudioEditorState where
  "initialState =
     \<lparr>tracks = [], selectedTrackId = None, selectedRegionStart = None,
      selectedRegionEnd = None, cursorPosition = 0, clipboard = None, isPlaying = False,
      currentTime = 0, duration = 0, zoom = 100, scrollLeft = 0, toolMode = Select,
      history = [], historyIndex = - 1\<rparr>"

subsection \<open>History\<close>

text \<open>\<open>xs.slice(0, e)\<close>: a negative \<open>e\<close> counts from the end, and both ends are clipped.\<close>

definition slice0 :: "'a list \<Rightarrow> int \<Rightarrow> 'a list" where
  "slice0 xs e = (if e < 0 then take (nat (int (length xs) + e)) xs else take (nat e) xs)"

definition snapshot :: "AudioEditorState \<Rightarrow> HistoryState" where
  "snapshot state =
     \<lparr>h_tracks = tracks state, h_selectedTrackId = selectedTrackId state,
      h_selectedRegionStart = selectedRegionStart state,
      h_selectedRegionEnd = selectedRegionEnd state\<rparr>"

definition saveToHistory :: "AudioEditorState \<Rightarrow> AudioEditorState" where
  "saveToHistory state =
     (if length (history state) = 0
      then state\<lparr>history := [snapshot state], historyIndex := 0\<rparr>
      else
        let pushed = slice0 (history state) (historyIndex state + 1) @ [snapshot state];
            newHistory = (if length pushed > 50 then tl pushed else pushed)
        in state\<lparr>history := newHistory, historyIndex := int (length newHistory) - 1\<rparr>)"

text \<open>
  Reading \<open>history[i]\<close> outside the array gives \<open>undefined\<close>, and the following
  \<open>prevState.tracks\<close> throws a \<open>TypeError\<close> before \<open>set\<close> is reached.
\<close>

definition restore :: "AudioEditorState \<Rightarrow> int \<Rightarrow> js_error + AudioEditorState" where
  "restore state i =
     (if 0 \<le> i \<and> i < int (length (history state))
      then let entry = history state ! nat i
           in Inr (state\<lparr>tracks := h_tracks entry,
                          selectedTrackId := h_selectedTrackId entry,
                          selectedRegionStart := h_selectedRegionStart entry,
                          selectedRegionEnd := h_selectedRegionEnd entry,
                          historyIndex := i\<rparr>)
      else Inl TypeError)"

definition undo :: "AudioEditorState \<Rightarrow> js_error + AudioEditorState" where
  "undo state =
     (if length (history state) = 0 \<or> historyIndex state \<le> 0 then Inr state
      else restore state (historyIndex state - 1))"

definition redo :: "AudioEditorState \<Rightarrow> js_error + AudioEditorState" where
  "redo state =
     (if historyIndex state < int (length (history state)) - 1
      then restore state (historyIndex state + 1)
      else Inr state)"

definition canUndo :: "AudioEditorState \<Rightarrow> bool" where
  "canUndo state = (historyIndex state > 0)"

definition canRedo :: "AudioEditorState \<Rightarrow> bool" where
  "canRedo state = (historyIndex state < int (length (history state)) - 1)"

subsection \<open>Track actions\<close>

definition maxEnd :: "AudioTrack list \<Rightarrow> real" where
  "maxEnd ts = foldl (\<lambda>m track. max m (offset track + track_duration track)) 0 ts"

definition addTrack :: "string \<Rightarrow> Take \<Rightarrow> AudioEditorState \<Rightarrow> AudioEditorState" where
  "addTrack newId tk state =
     (let saved = saveToHistory state;
          newTrack = \<lparr>track_id = newId, track_take = tk, offset = maxEnd (tracks state),
                      track_duration = take_duration tk, muted = False, solo = False,
                      track_volume = 1, gain = 0, regions = [], envelopePoints = []\<rparr>
      in saved\<lparr>tracks := tracks saved @ [newTrack],
               duration := max (duration saved) (maxEnd (tracks state) + take_duration tk)\<rparr>)"

definition removeTrack :: "string \<Rightarrow> AudioEditorState \<Rightarrow> AudioEditorState" where
  "removeTrack trackId state =
     (let saved = saveToHistory state
      in saved\<lparr>tracks := filter (\<lambda>t. track_id t \<noteq> trackId) (tracks saved),
               selectedTrackId :=
                 (if selectedTrackId saved = Some trackId then None
                  else selectedTrackId saved)\<rparr>)"

text \<open>The spread \<open>{ ...t, ...updates }\<close>: a field present in \<open>updates\<close> wins.\<close>

definition override :: "'a \<Rightarrow> 'a option \<Rightarrow> 'a" where
  "override old upd = (case upd of None \<Rightarrow> old | Some v \<Rightarrow> v)"

definition mergeTrack :: "AudioTrack \<Rightarrow> TrackUpdates \<Rightarrow> AudioTrack" where
  "mergeTrack t updates =
     \<lparr>track_id = override (track_id t) (u_id updates),
      track_take = override (track_take t) (u_take updates),
      offset = override (offset t) (u_offset updates),
      track_duration = override (track_duration t) (u_duration updates),
      muted = override (muted t) (u_muted updates),
      solo = override (solo t) (u_solo updates),
      track_volume = override (track_volume t) (u_volume updates),
      gain = override (gain t) (u_gain updates),
      regions = override (regions t) (u_regions updates),
      envelopePoints = override (envelopePoints t) (u_envelopePoints updates)\<rparr>"

definition updateTrack :: "string \<Rightarrow> TrackUpdates \<Rightarrow> AudioEditorState \<Rightarrow> AudioEditorState" where
  "updateTrack trackId updates state =
     state\<lparr>tracks := map (\<lambda>t. if track_id t = trackId then mergeTrack t updates else t)
                         (tracks state)\<rparr>"

definition setTracks :: "AudioTrack list \<Rightarrow> AudioEditorState \<Rightarrow> AudioEditorState" where
  "setTracks ts state = (saveToHistory state)\<lparr>tracks := ts, duration := maxEnd ts\<rparr>"

definition clearTracks :: "AudioEditorState \<Rightarrow> AudioEditorState" where
  "clearTracks state =
     (saveToHistory state)\<lparr>tracks := [], selectedTrackId := None,
        selectedRegionStart := None, selectedRegionEnd := None, duration := 0\<rparr>"

definition selectTrack :: "string option \<Rightarrow> AudioEditorState \<Rightarrow> AudioEditorState" where
  "selectTrack trackId state = state\<lparr>selectedTrackId := trackId\<rparr>"

definition setSelection ::
  "real option \<Rightarrow> real option \<Rightarrow> AudioEditorState \<Rightarrow> AudioEditorState" where
  "setSelection start end state =
     state\<lparr>selectedRegionStart := start, selectedRegionEnd := end\<rparr>"

text \<open>
  \<open>splitAtCursor\<close>: \<open>!state.selectedTrackId\<close> also holds for the empty string, and the
  id of the new marker region comes from \<open>Date.now()\<close>.
\<close>

definition splitAtCursor :: "string \<Rightarrow> AudioEditorState \<Rightarrow> AudioEditorState" where
  "splitAtCursor newId state =
     (case selectedTrackId state of
        None \<Rightarrow> state
      | Some sel \<Rightarrow>
          if sel = [] then state
          else
            (case find (\<lambda>t. track_id t = sel) (tracks state) of
               None \<Rightarrow> state
             | Some track \<Rightarrow>
                 if \<not> (cursorPosition state \<ge> offset track
                        \<and> cursorPosition state \<le> offset track + track_duration track)
                 then state
                 else
                   let saved = saveToHistory state;
                       splitPoint = cursorPosition state - offset track;
                       newRegion = \<lparr>region_id = newId, region_start = splitPoint,
                                     region_end = splitPoint + 1 / 100,
                                     color = Some ''rgba(255, 200, 0, 0.8)''\<rparr>
                   in saved\<lparr>tracks :=
                        map (\<lambda>t. if Some (track_id t) = selectedTrackId saved
                                  then t\<lparr>regions := regions t @ [newRegion]\<rparr> else t)
                            (tracks saved)\<rparr>))"

subsection \<open>Envelope actions\<close>

text \<open>
  \<open>Array.prototype.sort\<close> with the comparator \<open>a.time - b.time\<close> is a stable sort on
  the time; \<open>sort_key\<close> is the stable insertion sort of the list library.
\<close>

definition addEnvelopePoint ::
  "string \<Rightarrow> string \<Rightarrow> real \<Rightarrow> real \<Rightarrow> AudioEditorState \<Rightarrow> AudioEditorState" where
  "addEnvelopePoint newId trackId tm vol state =
     (let saved = saveToHistory state;
          newPoint = \<lparr>point_id = newId, time = tm, volume = vol\<rparr>
      in saved\<lparr>tracks :=
           map (\<lambda>t. if track_id t = trackId
                     then t\<lparr>envelopePoints := sort_key time (envelopePoints t @ [newPoint])\<rparr>
                     else t)
               (tracks saved)\<rparr>)"

definition mergePoint :: "EnvelopePoint \<Rightarrow> PointUpdates \<Rightarrow> EnvelopePoint" where
  "mergePoint p updates =
     \<lparr>point_id = override (point_id p) (pu_id updates),
      time = override (time p) (pu_time updates),
      volume = override (volume p) (pu_volume updates)\<rparr>"

definition updateEnvelopePoint ::
  "string \<Rightarrow> string \<Rightarrow> PointUpdates \<Rightarrow> AudioEditorState \<Rightarrow> AudioEditorState" where
  "updateEnvelopePoint trackId pointId updates state =
     state\<lparr>tracks :=
       map (\<lambda>t. if track_id t = trackId
                 then t\<lparr>envelopePoints :=
                        sort_key time
                          (map (\<lambda>p. if point_id p = pointId then mergePoint p updates else p)
                               (envelopePoints t))\<rparr>
                 else t)
           (tracks state)\<rparr>"

definition removeEnvelopePoint ::
  "string \<Rightarrow> string \<Rightarrow> AudioEditorState \<Rightarrow> AudioEditorState" where
  "removeEnvelopePoint trackId pointId state =
     (let saved = saveToHistory state
      in saved\<lparr>tracks :=
           map (\<lambda>t. if track_id t = trackId
                     then t\<lparr>envelopePoints :=
                            filter (\<lambda>p. point_id p \<noteq> pointId) (envelopePoints t)\<rparr>
                     else t)
               (tracks saved)\<rparr>)"

text \<open>A finite sequence of envelope edits, applied from left to right.\<close>

datatype envelope_op =
    AddPoint string string real real
  | UpdatePoint string string PointUpdates
  | RemovePoint string string

fun apply_envelope_op :: "AudioEditorState \<Rightarrow> envelope_op \<Rightarrow> AudioEditorState" where
  "apply_envelope_op s (AddPoint newId trackId tm vol) = addEnvelopePoint newId trackId tm vol s"
| "apply_envelope_op s (UpdatePoint trackId pointId updates) =
     updateEnvelopePoint trackId pointId updates s"
| "apply_envelope_op s (RemovePoint trackId pointId) = removeEnvelopePoint trackId pointId s"

definition apply_envelope_ops :: "envelope_op list \<Rightarrow> AudioEditorState \<Rightarrow> AudioEditorState" where
  "apply_envelope_ops ops s = foldl apply_envelope_op s ops"

definition times_ascending :: "AudioTrack \<Rightarrow> bool" where
  "times_ascending t = sorted (map time (envelopePoints t))"

definition times_distinct :: "AudioTrack \<Rightarrow> bool" where
  "times_distinct t = distinct (map time (envelopePoints t))"

text \<open>
  A run of snapshots: the live timeline is replaced by each entry of the list in turn
  (the mutation between two saves) and \<open>saveToHistory\<close> is called on it.
\<close>

definition setLive :: "HistoryState \<Rightarrow> AudioEditorState \<Rightarrow> AudioEditorState" where
  "setLive h state =
     state\<lparr>tracks := h_tracks h, selectedTrackId := h_selectedTrackId h,
            selectedRegionStart := h_selectedRegionStart h,
            selectedRegionEnd := h_selectedRegionEnd h\<rparr>"

definition pushSnapshots :: "HistoryState list \<Rightarrow> AudioEditorState \<Rightarrow> AudioEditorState" where
  "pushSnapshots hs state = foldl (\<lambda>s h. saveToHistory (setLive h s)) state hs"

definition cursor_in_range :: "AudioEditorState \<Rightarrow> bool" where
  "cursor_in_range state =
     (history state = []
      \<or> (0 \<le> historyIndex state \<and> historyIndex state < int (length (history state))))"


text \<open>The history as the pair that \<open>undo\<close> and \<open>redo\<close> read.\<close>

definition history_of :: "AudioEditorState \<Rightarrow> HistoryState list \<times> int" where
  "history_of state = (history state, historyIndex state)"

text \<open>A mutation of the live timeline that does not touch the history.\<close>

definition keeps_history :: "(AudioEditorState \<Rightarrow> AudioEditorState) \<Rightarrow> bool" where
  "keeps_history m = (\<forall>s. history_of (m s) = history_of s)"

text \<open>Concrete values for the worked examples.\<close>

definition sampleTake :: Take where
  "sampleTake = \<lparr>take_id = ''take1'', lineIndex = 0, takeNumber = 1, fileName = ''a.wav'',
     filePath = ''/rec/a.wav'', take_duration = 10, timestamp = ''2024'', isSelected = False\<rparr>"

definition oneTrack :: AudioEditorState where
  "oneTrack = addTrack ''t1'' sampleTake initialState"

definition muteUpdate :: TrackUpdates where
  "muteUpdate = \<lparr>u_id = None, u_take = None, u_offset = None, u_duration = None,
     u_muted = Some True, u_solo = None, u_volume = None, u_gain = None, u_regions = None,
     u_envelopePoints = None\<rparr>"

definition numbered :: "nat \<Rightarrow> HistoryState" where
  "numbered i = \<lparr>h_tracks = [], h_selectedTrackId = None,
     h_selectedRegionStart = Some (real i), h_selectedRegionEnd = None\<rparr>"

section \<open>Speed decomposition (AudioProcessor.changeSpeed)\<close>

text \<open>
  \<open>changeSpeed\<close> builds the list of \<open>atempo\<close> stages with two \<open>while\<close> loops and
  then hands the joined list to the transform engine. A stage \<open>atempo=x\<close> is modelled by
  its ratio \<open>x\<close>, and the speed by a real number, that is, a finite one: halving and
  doubling are exact in binary floating point, while \<open>NaN\<close> and the infinities are outside
  the model.

  Every iteration calls \<open>filters.push\<close>, and an array cannot grow without bound: once it
  holds \<open>cap\<close> elements, \<open>push\<close> throws a \<open>RangeError\<close>, which leaves the loop and rejects
  the promise. The capacity is a parameter; the language puts it at \<open>2^32 - 1\<close>
  (\<open>maxArrayLength\<close>), and an engine may run out of memory earlier. With it both loops
  terminate on every input: the first halves \<open>currentSpeed\<close> while it exceeds 2, the
  second doubles it while it is below 1/2 and so can only end by the error when
  \<open>currentSpeed\<close> is not positive.
\<close>

datatype audio_filter = Atempo real

fun tempo :: "audio_filter \<Rightarrow> real" where
  "tempo (Atempo r) = r"

definition push :: "nat \<Rightarrow> 'a list \<Rightarrow> 'a \<Rightarrow> js_error + 'a list" where
  "push cap xs x = (if length xs < cap then Inr (xs @ [x]) else Inl RangeError)"

function fast_loop ::
  "nat \<Rightarrow> real \<Rightarrow> audio_filter list \<Rightarrow> js_error + real \<times> audio_filter list" where
  "fast_loop cap currentSpeed filters =
     (if currentSpeed > 2
      then (case push cap filters (Atempo 2) of
              Inl e \<Rightarrow> Inl e
            | Inr filters' \<Rightarrow> fast_loop cap (currentSpeed / 2) filters')
      else Inr (currentSpeed, filters))"
  by pat_completeness auto
termination
proof (relation "measure (\<lambda>(cap, c, fs). nat \<lfloor>c\<rfloor>)")
  show "wf (measure (\<lambda>(cap::nat, c::real, fs::audio_filter list). nat \<lfloor>c\<rfloor>))" by simp
next
  fix cap :: nat and currentSpeed :: real and filters filters' :: "audio_filter list"
  assume gt: "2 < currentSpeed"
  have "\<lfloor>currentSpeed / 2\<rfloor> < \<lfloor>currentSpeed\<rfloor>" using gt by linarith
  moreover have "0 < \<lfloor>currentSpeed\<rfloor>" using gt by linarith
  ultimately show "((cap, currentSpeed / 2, filters'), (cap, currentSpeed, filters))
      \<in> measure (\<lambda>(cap, c, fs). nat \<lfloor>c\<rfloor>)" by simp
qed

function slow_loop ::
  "nat \<Rightarrow> real \<Rightarrow> audio_filter list \<Rightarrow> js_error + real \<times> audio_filter list" where
  "slow_loop cap currentSpeed filters =
     (if currentSpeed < 1 / 2
      then (case push cap filters (Atempo (1 / 2)) of
              Inl e \<Rightarrow> Inl e
            | Inr filters' \<Rightarrow> slow_loop cap (currentSpeed * 2) filters')
      else Inr (currentSpeed, filters))"
  by pat_completeness auto
termination
proof (relation "measure (\<lambda>(cap, c, fs). cap - length fs)")
  show "wf (measure (\<lambda>(cap::nat, c::real, fs::audio_filter list). cap - length fs))" by simp
next
  fix cap :: nat and currentSpeed :: real and filters filters' :: "audio_filter list"
  assume "push cap filters (Atempo (1 / 2)) = Inr filters'"
  then have "length filters < cap" and "filters' = filters @ [Atempo (1 / 2)]"
    by (auto simp: push_def split: if_splits)
  then show "((cap, currentSpeed * 2, filters'), (cap, currentSpeed, filters))
      \<in> measure (\<lambda>(cap, c, fs). cap - length fs)" by simp
qed

definition changeSpeed_filters :: "nat \<Rightarrow> real \<Rightarrow> js_error + audio_filter list" where
  "changeSpeed_filters cap speed =
     (case fast_loop cap speed [] of
        Inl e \<Rightarrow> Inl e
      | Inr (c1, fs1) \<Rightarrow>
          (case slow_loop cap c1 fs1 of
             Inl e \<Rightarrow> Inl e
           | Inr (c2, fs2) \<Rightarrow> push cap fs2 (Atempo c2)))"

text \<open>The recursion equations are unfolded by hand, one iteration at a time.\<close>

declare fast_loop.simps [simp del]
declare slow_loop.simps [simp del]

definition stage_product :: "audio_filter list \<Rightarrow> real" where
  "stage_product fs = prod_list (map tempo fs)"

definition stage_ok :: "audio_filter \<Rightarrow> bool" where
  "stage_ok f = (1 / 2 \<le> tempo f \<and> tempo f \<le> 2)"

text \<open>
  The number of stages and the stage list for a positive speed, in closed form:
  \<open>stage_count r - 1\<close> stages of 2 (or of 1/2) followed by the remaining ratio.
\<close>

definition stage_count :: "real \<Rightarrow> nat" where
  "stage_count r = max 1 (nat \<lceil>\<bar>log 2 r\<bar>\<rceil>)"

definition expected_filters :: "real \<Rightarrow> audio_filter list" where
  "expected_filters r =
     (if 2 < r
      then replicate (stage_count r - 1) (Atempo 2) @ [Atempo (r / 2 ^ (stage_count r - 1))]
      else replicate (stage_count r - 1) (Atempo (1 / 2))
             @ [Atempo (r * 2 ^ (stage_count r - 1))])"

definition maxArrayLength :: nat where
  "maxArrayLength = 2 ^ 32 - 1"



section \<open>The selection pipeline (AudioProcessor, electron/main.ts)\<close>

text \<open>
  The transform engine (ffmpeg, ffprobe) is outside the code: it is a parameter that says
  what the probe reports and which invocations fail. The world is the set of files that
  exist together with the list of engine invocations made so far. Every \<open>await\<close> is a
  bind: a rejected promise or a \<open>throw\<close> skips the rest of the function, as in the source.
  A successful invocation creates its output file; a failing one is taken to leave the
  files as they are. \<open>Date.now()\<close> is the parameter \<open>stamp\<close>.
\<close>

type_synonym path = string

datatype engine_call =
    FfProbe path
  | FfTrim path path real real
  | FfFilter path path string
  | FfConcat "path list" path

record engine =
  ffprobe :: "path \<Rightarrow> string + real option"
  ffmpeg_error :: "engine_call \<Rightarrow> string option"

record world =
  files :: "path set"
  calls :: "engine_call list"

type_synonym 'a io = "world \<Rightarrow> (js_error + 'a) \<times> world"

text \<open>Resolving, throwing (or rejecting) and awaiting.\<close>

definition io_return :: "'a \<Rightarrow> 'a io" where
  "io_return x = (\<lambda>w. (Inr x, w))"

definition io_throw :: "js_error \<Rightarrow> 'a io" where
  "io_throw e = (\<lambda>w. (Inl e, w))"

definition io_bind :: "'a io \<Rightarrow> ('a \<Rightarrow> 'b io) \<Rightarrow> 'b io" where
  "io_bind m f = (\<lambda>w. case m w of (Inl e, w') \<Rightarrow> (Inl e, w') | (Inr x, w') \<Rightarrow> f x w')"

text \<open>The same clean-up in the \<open>end\<close> and in the \<open>error\<close> handler of an invocation.\<close>

definition io_finally :: "'a io \<Rightarrow> (world \<Rightarrow> world) \<Rightarrow> 'a io" where
  "io_finally m cleanup = (\<lambda>w. case m w of (r, w') \<Rightarrow> (r, cleanup w'))"

text \<open>One run of the engine: it is recorded, and it writes its output unless it fails.\<close>

definition logged :: "engine_call \<Rightarrow> world \<Rightarrow> world" where
  "logged c w = w\<lparr>calls := calls w @ [c]\<rparr>"

definition run_ffmpeg :: "engine \<Rightarrow> engine_call \<Rightarrow> path \<Rightarrow> path io" where
  "run_ffmpeg E c out =
     (\<lambda>w. case ffmpeg_error E c of
             Some m \<Rightarrow> (Inl (Error m), logged c w)
           | None \<Rightarrow> (Inr out, (logged c w)\<lparr>files := insert out (files w)\<rparr>))"

definition trim :: "engine \<Rightarrow> path \<Rightarrow> path \<Rightarrow> real \<Rightarrow> real \<Rightarrow> path io" where
  "trim E inputPath outputPath startTime dur =
     run_ffmpeg E (FfTrim inputPath outputPath startTime dur) outputPath"

text \<open>\<open>getDuration\<close> resolves to \<open>metadata.format.duration || 0\<close>.\<close>

definition getDuration :: "engine \<Rightarrow> path \<Rightarrow> real io" where
  "getDuration E inputPath =
     (\<lambda>w. case ffprobe E inputPath of
             Inl m \<Rightarrow> (Inl (Error m), logged (FfProbe inputPath) w)
           | Inr d \<Rightarrow> (Inr (case d of None \<Rightarrow> 0 | Some x \<Rightarrow> x), logged (FfProbe inputPath) w))"

text \<open>
  The file system calls: copying throws when the source is missing, and
  \<open>try { fs.unlinkSync(p) } catch { }\<close> removes the file if it is there.
\<close>

definition copyFileSync :: "path \<Rightarrow> path \<Rightarrow> unit io" where
  "copyFileSync src dst =
     (\<lambda>w. if src \<in> files w then (Inr (), w\<lparr>files := insert dst (files w)\<rparr>)
           else (Inl (Error ''ENOENT: no such file or directory''), w))"

definition writeFileSync :: "path \<Rightarrow> unit io" where
  "writeFileSync p = (\<lambda>w. (Inr (), w\<lparr>files := insert p (files w)\<rparr>))"

definition removed :: "path \<Rightarrow> world \<Rightarrow> world" where
  "removed p w = w\<lparr>files := files w - {p}\<rparr>"

definition unlink_quiet :: "path \<Rightarrow> unit io" where
  "unlink_quiet p = (\<lambda>w. (Inr (), removed p w))"

definition concatenate :: "engine \<Rightarrow> path list \<Rightarrow> path \<Rightarrow> path io" where
  "concatenate E inputPaths outputPath =
     (if length inputPaths = 0 then io_throw (Error ''No input files provided'')
      else if length inputPaths = 1
      then io_bind (copyFileSync (inputPaths ! 0) outputPath) (\<lambda>_. io_return outputPath)
      else
        let tempListPath = outputPath @ ''.txt''
        in io_bind (writeFileSync tempListPath) (\<lambda>_.
             io_finally (run_ffmpeg E (FfConcat inputPaths outputPath) outputPath)
               (removed tempListPath)))"

text \<open>
  The replacement of the trailing run of characters other than slash and backslash by
  the empty string drops the last path component; the temporary names are built from
  that directory and the decimal rendering of the time stamp.
\<close>

definition is_separator :: "char \<Rightarrow> bool" where
  "is_separator c = (c = CHR ''/'' \<or> c = CHR 0x5C)"

definition tempDirOf :: "path \<Rightarrow> path" where
  "tempDirOf outputPath = rev (dropWhile (\<lambda>c. \<not> is_separator c) (rev outputPath))"

fun show_nat :: "nat \<Rightarrow> string" where
  "show_nat n =
     (if n < 10 then [''0123456789'' ! n]
      else show_nat (n div 10) @ [''0123456789'' ! (n mod 10)])"

declare show_nat.simps [simp del]

definition tempPath :: "path \<Rightarrow> string \<Rightarrow> nat \<Rightarrow> path" where
  "tempPath outputPath name stamp =
     tempDirOf outputPath @ ''temp_'' @ name @ ''_'' @ show_nat stamp @ ''.wav''"

definition deleteSelection ::
  "engine \<Rightarrow> nat \<Rightarrow> path \<Rightarrow> path \<Rightarrow> real \<Rightarrow> real \<Rightarrow> path io" where
  "deleteSelection E stamp inputPath outputPath startTime endTime =
     io_bind (getDuration E inputPath) (\<lambda>audioDuration.
       if startTime \<le> 0 \<and> endTime \<ge> audioDuration
       then io_throw (Error ''Cannot delete entire audio'')
       else if startTime \<le> 0
       then io_bind (trim E inputPath outputPath endTime (audioDuration - endTime))
              (\<lambda>_. io_return outputPath)
       else if endTime \<ge> audioDuration
       then io_bind (trim E inputPath outputPath 0 startTime) (\<lambda>_. io_return outputPath)
       else
         let beforePath = tempPath outputPath ''before'' stamp;
             afterPath = tempPath outputPath ''after'' stamp
         in io_bind (trim E inputPath beforePath 0 startTime) (\<lambda>_.
            io_bind (trim E inputPath afterPath endTime (audioDuration - endTime)) (\<lambda>_.
            io_bind (concatenate E [beforePath, afterPath] outputPath) (\<lambda>_.
            io_bind (unlink_quiet beforePath) (\<lambda>_.
            io_bind (unlink_quiet afterPath) (\<lambda>_.
            io_return outputPath))))))"

definition applyEffectToSelection ::
  "engine \<Rightarrow> nat \<Rightarrow> path \<Rightarrow> path \<Rightarrow> real \<Rightarrow> real \<Rightarrow> string \<Rightarrow> path io" where
  "applyEffectToSelection E stamp inputPath outputPath startTime endTime effectFilter =
     io_bind (getDuration E inputPath) (\<lambda>audioDuration.
       let beforePath = tempPath outputPath ''before'' stamp;
           selectionPath = tempPath outputPath ''selection'' stamp;
           selectionProcessedPath = tempPath outputPath ''selection_processed'' stamp;
           afterPath = tempPath outputPath ''after'' stamp
       in
       io_bind (if startTime > 0
                then io_bind (trim E inputPath beforePath 0 startTime)
                       (\<lambda>_. io_return [beforePath])
                else io_return []) (\<lambda>parts1.
       io_bind (trim E inputPath selectionPath startTime (endTime - startTime)) (\<lambda>_.
       io_bind (run_ffmpeg E (FfFilter selectionPath selectionProcessedPath effectFilter)
                  selectionProcessedPath) (\<lambda>_.
       io_bind (if endTime < audioDuration
                then io_bind (trim E inputPath afterPath endTime (audioDuration - endTime))
                       (\<lambda>_. io_return (parts1 @ [selectionProcessedPath, afterPath]))
                else io_return (parts1 @ [selectionProcessedPath])) (\<lambda>partsToConcat.
       io_bind (if length partsToConcat = 1
                then copyFileSync selectionProcessedPath outputPath
                else io_bind (concatenate E partsToConcat outputPath) (\<lambda>_. io_return ()))
         (\<lambda>_.
       io_bind (unlink_quiet beforePath) (\<lambda>_.
       io_bind (unlink_quiet selectionPath) (\<lambda>_.
       io_bind (unlink_quiet selectionProcessedPath) (\<lambda>_.
       io_bind (unlink_quiet afterPath) (\<lambda>_.
       io_return outputPath))))))))))"

text \<open>
  The handlers of electron/main.ts: \<open>try { await ...; return {success: true, path} }
  catch (error) { return {success: false, error: error.message} }\<close>.
\<close>

datatype ipc_result = Success path | Failure string

fun message :: "js_error \<Rightarrow> string" where
  "message (Error m) = m"
| "message TypeError = ''TypeError''"
| "message RangeError = ''Invalid array length''"

definition ipc_handle :: "path io \<Rightarrow> path \<Rightarrow> world \<Rightarrow> ipc_result \<times> world" where
  "ipc_handle action outputPath w =
     (case action w of
        (Inl e, w') \<Rightarrow> (Failure (message e), w')
      | (Inr _, w') \<Rightarrow> (Success outputPath, w'))"

definition ipc_deleteSelection ::
  "engine \<Rightarrow> nat \<Rightarrow> path \<Rightarrow> path \<Rightarrow> real \<Rightarrow> real \<Rightarrow> world \<Rightarrow> ipc_result \<times> world" where
  "ipc_deleteSelection E stamp inputPath outputPath startTime endTime =
     ipc_handle (deleteSelection E stamp inputPath outputPath startTime endTime) outputPath"

definition ipc_applyEffectToSelection ::
  "engine \<Rightarrow> nat \<Rightarrow> path \<Rightarrow> path \<Rightarrow> real \<Rightarrow> real \<Rightarrow> string \<Rightarrow> world
     \<Rightarrow> ipc_result \<times> world" where
  "ipc_applyEffectToSelection E stamp inputPath outputPath startTime endTime effectFilter =
     ipc_handle
       (applyEffectToSelection E stamp inputPath outputPath startTime endTime effectFilter)
       outputPath"

text \<open>
  The selection branch of \<open>applyEffect\<close> in AdvancedAudioEditor.tsx: the range it hands to
  the \<open>audio:applyEffectToSelection\<close> handler, and the call. The output path, which the
  component derives from the take's file name, is a parameter.
\<close>

definition applyEffect_range :: "AudioTrack \<Rightarrow> real \<Rightarrow> real \<Rightarrow> real \<times> real" where
  "applyEffect_range track selStart selEnd =
     (let startTime = min selStart selEnd - offset track;
          endTime = max selStart selEnd - offset track
      in (max 0 startTime, min (track_duration track) endTime))"

definition applyEffect_on_selection ::
  "engine \<Rightarrow> nat \<Rightarrow> AudioTrack \<Rightarrow> real \<Rightarrow> real \<Rightarrow> path \<Rightarrow> string \<Rightarrow> world
     \<Rightarrow> ipc_result \<times> world" where
  "applyEffect_on_selection E stamp track selStart selEnd outputPath effectFilter =
     (case applyEffect_range track selStart selEnd of
        (startTime, endTime) \<Rightarrow>
          ipc_applyEffectToSelection E stamp (filePath (track_take track)) outputPath
            startTime endTime effectFilter)"

definition sampleTrack :: AudioTrack where
  "sampleTrack = \<lparr>track_id = ''t1'', track_take = sampleTake, offset = 0,
      track_duration = 10, muted = False, solo = False, track_volume = 1, gain = 0,
      regions = [], envelopePoints = []\<rparr>"

text \<open>
  The range check of \<open>handleTrimToSelection\<close> in the same component: \<open>None\<close> is the
  alert \<open>Invalid selection\<close>, after which nothing is sent to the engine.
\<close>

definition handleTrimToSelection_range :: "AudioTrack \<Rightarrow> real \<Rightarrow> real \<Rightarrow> (real \<times> real) option" where
  "handleTrimToSelection_range track selStart selEnd =
     (let start = max 0 (min selStart selEnd - offset track);
          end = min (track_duration track) (max selStart selEnd - offset track);
          trimDuration = end - start
      in if trimDuration \<le> 0 then None else Some (start, trimDuration))"

text \<open>Two engines and a disk for the worked examples.\<close>

definition reliable :: "real \<Rightarrow> engine" where
  "reliable d = \<lparr>ffprobe = (\<lambda>_. Inr (Some d)), ffmpeg_error = (\<lambda>_. None)\<rparr>"

definition concat_fails :: "real \<Rightarrow> engine" where
  "concat_fails d =
     \<lparr>ffprobe = (\<lambda>_. Inr (Some d)),
      ffmpeg_error = (\<lambda>c. case c of FfConcat _ _ \<Rightarrow> Some ''concat failed'' | _ \<Rightarrow> None)\<rparr>"

definition disk :: world where
  "disk = \<lparr>files = {''/rec/a.wav''}, calls = []\<rparr>"


section \<open>Envelope compilation (AudioProcessor.applyVolumeEnvelope)\<close>

text \<open>
  The volume expression is assembled from string literals and interpolated numbers. It is
  modelled as the list of these pieces; a number is never rendered with a parenthesis, so
  the bracket structure of the expression is that of its text pieces. The flag of
  \<open>envelope_loop\<close> is the test \<open>i === 0\<close>; \<open>Math.pow(10, x)\<close> is \<open>10 powr x\<close>.
\<close>

record volume_point =
  pt_time :: real
  pt_volume :: real

datatype piece = Text string | Number real

fun envelope_loop :: "bool \<Rightarrow> volume_point list \<Rightarrow> piece list" where
  "envelope_loop first [] = []"
| "envelope_loop first (point # rest) =
     (let volLinear = 10 powr (pt_volume point / 20)
      in (if first \<and> pt_time point > 0
          then [Text ''if(lt(t,'', Number (pt_time point), Text ''),'', Number volLinear,
                Text '','']
          else [])
         @ (case rest of
              nextPoint # _ \<Rightarrow>
                (let nextVolLinear = 10 powr (pt_volume nextPoint / 20);
                     timeDiff = pt_time nextPoint - pt_time point
                 in [Text ''if(lt(t,'', Number (pt_time nextPoint), Text ''),'',
                     Number volLinear, Text ''+('', Number nextVolLinear, Text ''-'',
                     Number volLinear, Text '')*(t-'', Number (pt_time point), Text '')/'',
                     Number timeDiff, Text '',''])
            | [] \<Rightarrow> [Number volLinear])
         @ envelope_loop False rest)"

definition volumeExpr :: "volume_point list \<Rightarrow> piece list" where
  "volumeExpr volumePoints =
     envelope_loop True volumePoints @ replicate (length volumePoints) (Text '')'')"

text \<open>
  Bracket structure: \<open>depth_after d cs\<close> is the nesting depth after reading \<open>cs\<close> at depth
  \<open>d\<close>, and \<open>None\<close> if a closing parenthesis has no partner.
\<close>

fun text_of :: "piece list \<Rightarrow> string" where
  "text_of [] = []"
| "text_of (Text s # ps) = s @ text_of ps"
| "text_of (Number x # ps) = text_of ps"

fun depth_after :: "nat \<Rightarrow> string \<Rightarrow> nat option" where
  "depth_after d [] = Some d"
| "depth_after d (c # cs) =
     (if c = CHR ''('' then depth_after (Suc d) cs
      else if c = CHR '')'' then (case d of 0 \<Rightarrow> None | Suc d' \<Rightarrow> depth_after d' cs)
      else depth_after d cs)"

definition well_bracketed :: "piece list \<Rightarrow> bool" where
  "well_bracketed ps = (depth_after 0 (text_of ps) = Some 0)"


section \<open>Properties of the history\<close>

lemma saveToHistory_live [simp]:
  "tracks (saveToHistory s) = tracks s"
  "selectedTrackId (saveToHistory s) = selectedTrackId s"
  "selectedRegionStart (saveToHistory s) = selectedRegionStart s"
  "selectedRegionEnd (saveToHistory s) = selectedRegionEnd s"
  by (simp_all add: saveToHistory_def Let_def)

lemma saveToHistory_nonempty: "history (saveToHistory s) \<noteq> []"
  by (auto simp: saveToHistory_def Let_def dest: arg_cong[where f = length])

lemma saveToHistory_index:
  "historyIndex (saveToHistory s) = int (length (history (saveToHistory s))) - 1"
  by (simp add: saveToHistory_def Let_def)

lemma saveToHistory_cursor: "cursor_in_range (saveToHistory s)"
  using saveToHistory_nonempty[of s]
  by (simp add: cursor_in_range_def saveToHistory_index)

lemma undo_cursor:
  assumes "cursor_in_range s"
  shows "\<exists>s'. undo s = Inr s' \<and> cursor_in_range s' \<and> history s' = history s"
  using assms by (auto simp: undo_def restore_def cursor_in_range_def Let_def)

lemma redo_cursor:
  assumes "cursor_in_range s" and "- 1 \<le> historyIndex s"
  shows "\<exists>s'. redo s = Inr s' \<and> cursor_in_range s' \<and> history s' = history s"
  using assms by (auto simp: redo_def restore_def cursor_in_range_def Let_def)

lemma snapshot_setLive [simp]: "snapshot (setLive h s) = h"
  by (simp add: snapshot_def setLive_def)

lemma setLive_history [simp]:
  "history (setLive h s) = history s" "historyIndex (setLive h s) = historyIndex s"
  by (simp_all add: setLive_def)

lemma pushSnapshots_snoc:
  "pushSnapshots (hs @ [h]) s = saveToHistory (setLive h (pushSnapshots hs s))"
  by (simp add: pushSnapshots_def)

lemma push_on_full_cursor:
  assumes "history s \<noteq> []" and "historyIndex s = int (length (history s)) - 1"
  shows "history (saveToHistory (setLive h s)) =
           (if length (history s) \<ge> 50 then tl (history s) @ [h] else history s @ [h])"
  using assms by (cases "history s") (simp_all add: saveToHistory_def Let_def slice0_def)

lemma pushSnapshots_history:
  assumes "history s0 = []"
  shows "history (pushSnapshots hs s0) = drop (length hs - 50) hs"
proof (induction hs rule: rev_induct)
  case Nil
  then show ?case by (simp add: pushSnapshots_def assms)
next
  case (snoc h hs)
  let ?s = "pushSnapshots hs s0"
  show ?case
  proof (cases "hs = []")
    case True
    then show ?thesis
      by (simp add: pushSnapshots_def saveToHistory_def assms)
  next
    case False
    then obtain k ks where "hs = ks @ [k]" by (cases hs rule: rev_cases) auto
    then have idx: "historyIndex ?s = int (length (history ?s)) - 1"
      by (simp add: pushSnapshots_snoc saveToHistory_index)
    have "0 < length hs" using False by simp
    then have "length hs - 50 < length hs" by arith
    then have ne: "history ?s \<noteq> []" using snoc.IH by simp
    have len: "length (history ?s) = min (length hs) 50" using snoc.IH by simp
    show ?thesis
    proof (cases "length hs \<ge> 50")
      case True
      then have "history (pushSnapshots (hs @ [h]) s0) = tl (drop (length hs - 50) hs) @ [h]"
        using push_on_full_cursor[OF ne idx, of h] len snoc.IH
        by (simp add: pushSnapshots_snoc)
      also have "tl (drop (length hs - 50) hs) = drop (Suc (length hs - 50)) hs"
        by (simp add: drop_Suc tl_drop)
      also have "Suc (length hs - 50) = length hs - 49" using True by arith
      finally show ?thesis using True by simp
    next
      case False
      then show ?thesis
        using push_on_full_cursor[OF ne idx, of h] len snoc.IH
        by (simp add: pushSnapshots_snoc)
    qed
  qed
qed

lemma pushSnapshots_cursor:
  assumes "history s0 = []"
  shows "cursor_in_range (pushSnapshots hs s0)"
proof (cases hs rule: rev_cases)
  case Nil
  then show ?thesis by (simp add: pushSnapshots_def cursor_in_range_def assms)
next
  case (snoc ks k)
  then show ?thesis by (simp add: pushSnapshots_snoc saveToHistory_cursor)
qed

lemma pushSnapshots_index:
  assumes "hs \<noteq> []"
  shows "historyIndex (pushSnapshots hs s0) = int (length (history (pushSnapshots hs s0))) - 1"
  using assms by (cases hs rule: rev_cases) (simp_all add: pushSnapshots_snoc saveToHistory_index)


text \<open>
  C6. Starting from an empty history, sixty calls of \<open>saveToHistory\<close> (with any
  timeline contents in between) leave exactly fifty entries, namely the last fifty
  snapshots in order, so the ten oldest are gone; the cursor \<open>historyIndex\<close> is 49, the
  position of the newest entry; and after every prefix of the run the cursor lies in
  \<open>[0, length history)\<close> unless the history is empty.
\<close>

theorem history_cap:
  assumes "history s0 = []" and "length hs = 60"
  shows "history (pushSnapshots hs s0) = drop 10 hs
       \<and> length (history (pushSnapshots hs s0)) = 50
       \<and> historyIndex (pushSnapshots hs s0) = 49
       \<and> (\<forall>n. cursor_in_range (pushSnapshots (take n hs) s0))"
proof -
  have h: "history (pushSnapshots hs s0) = drop 10 hs"
    using pushSnapshots_history[OF assms(1), of hs] assms(2) by simp
  have ne: "hs \<noteq> []" using assms(2) by auto
  show ?thesis
    using h pushSnapshots_index[OF ne, of s0] assms(2) pushSnapshots_cursor[OF assms(1)]
    by simp
qed

theorem history_cap_witness:
  "history initialState = [] \<and> length (map numbered [0..<60]) = 60
   \<and> length (history (pushSnapshots (map numbered [0..<60]) initialState)) = 50
   \<and> hd (history (pushSnapshots (map numbered [0..<60]) initialState)) = numbered 10
   \<and> last (history (pushSnapshots (map numbered [0..<60]) initialState)) = numbered 59
   \<and> historyIndex (pushSnapshots (map numbered [0..<60]) initialState) = 49"
proof -
  have e: "history initialState = []" by (simp add: initialState_def)
  have l: "length (map numbered [0..<60]) = 60" by simp
  from history_cap[OF e l] show ?thesis
    by (simp add: e hd_drop_conv_nth last_drop last_map del: upt_Suc)
qed


section \<open>Properties of the speed decomposition\<close>

lemma stage_product_snoc: "stage_product (fs @ [f]) = stage_product fs * tempo f"
  by (simp add: stage_product_def)

lemma stage_product_replicate:
  "stage_product (fs @ replicate k f) = stage_product fs * tempo f ^ k"
  by (induction k) (simp_all add: stage_product_def)

lemma fast_loop_done: "c \<le> 2 \<Longrightarrow> fast_loop cap c fs = Inr (c, fs)"
  by (subst fast_loop.simps) simp

lemma fast_loop_step:
  "2 < c \<Longrightarrow> length fs < cap \<Longrightarrow>
   fast_loop cap c fs = fast_loop cap (c / 2) (fs @ [Atempo 2])"
  by (subst fast_loop.simps) (simp add: push_def)

lemma slow_loop_done: "1 / 2 \<le> c \<Longrightarrow> slow_loop cap c fs = Inr (c, fs)"
  by (subst slow_loop.simps) simp

lemma slow_loop_step:
  "c < 1 / 2 \<Longrightarrow> length fs < cap \<Longrightarrow>
   slow_loop cap c fs = slow_loop cap (c * 2) (fs @ [Atempo (1 / 2)])"
  by (subst slow_loop.simps) (simp add: push_def)

lemma slow_loop_full:
  "c < 1 / 2 \<Longrightarrow> \<not> length fs < cap \<Longrightarrow> slow_loop cap c fs = Inl RangeError"
  by (subst slow_loop.simps) (simp add: push_def)

lemma fast_loop_run:
  "c / 2 ^ k \<le> 2 \<Longrightarrow> (k = 0 \<or> 2 < c / 2 ^ (k - 1)) \<Longrightarrow> length fs + k \<le> cap \<Longrightarrow>
   fast_loop cap c fs = Inr (c / 2 ^ k, fs @ replicate k (Atempo 2))"
proof (induction k arbitrary: c fs)
  case 0
  then show ?case by (simp add: fast_loop_done)
next
  case (Suc k)
  from Suc.prems(2) have big: "2 < c / 2 ^ k" by simp
  have "(1::real) \<le> 2 ^ k" by simp
  with big have "2 * 2 ^ k < c" by (simp add: pos_less_divide_eq)
  then have c2: "2 < c" using \<open>(1::real) \<le> 2 ^ k\<close> by linarith
  have len: "length fs < cap" using Suc.prems(3) by simp
  have a: "c / 2 / 2 ^ k \<le> 2" using Suc.prems(1) by simp
  have b: "k = 0 \<or> 2 < c / 2 / 2 ^ (k - 1)"
  proof (cases k)
    case 0
    then show ?thesis by simp
  next
    case (Suc j)
    with big show ?thesis by simp
  qed
  have l: "length (fs @ [Atempo 2]) + k \<le> cap" using Suc.prems(3) by simp
  have "fast_loop cap c fs = fast_loop cap (c / 2) (fs @ [Atempo 2])"
    using c2 len by (rule fast_loop_step)
  also have "\<dots> = Inr (c / 2 / 2 ^ k, (fs @ [Atempo 2]) @ replicate k (Atempo 2))"
    using a b l by (rule Suc.IH)
  finally show ?case by (simp add: replicate_app_Cons_same)
qed

lemma slow_loop_run:
  "1 / 2 \<le> c * 2 ^ k \<Longrightarrow> (k = 0 \<or> c * 2 ^ (k - 1) < 1 / 2) \<Longrightarrow> length fs + k \<le> cap \<Longrightarrow>
   slow_loop cap c fs = Inr (c * 2 ^ k, fs @ replicate k (Atempo (1 / 2)))"
proof (induction k arbitrary: c fs)
  case 0
  then show ?case by (simp add: slow_loop_done)
next
  case (Suc k)
  from Suc.prems(2) have small: "c * 2 ^ k < 1 / 2" by simp
  have pos: "0 < c"
  proof (rule ccontr)
    assume "\<not> 0 < c"
    then have "c * 2 ^ Suc k \<le> 0" by (simp add: mult_le_0_iff)
    with Suc.prems(1) show False by simp
  qed
  have "(1::real) \<le> 2 ^ k" by simp
  then have "c * 1 \<le> c * 2 ^ k" using pos by (intro mult_left_mono) simp_all
  with small have c2: "c < 1 / 2" by simp
  have len: "length fs < cap" using Suc.prems(3) by simp
  have a: "1 / 2 \<le> c * 2 * 2 ^ k" using Suc.prems(1) by (simp add: mult.assoc)
  have b: "k = 0 \<or> c * 2 * 2 ^ (k - 1) < 1 / 2"
  proof (cases k)
    case 0
    then show ?thesis by simp
  next
    case (Suc j)
    with small show ?thesis by (simp add: mult.assoc)
  qed
  have l: "length (fs @ [Atempo (1 / 2)]) + k \<le> cap" using Suc.prems(3) by simp
  have "slow_loop cap c fs = slow_loop cap (c * 2) (fs @ [Atempo (1 / 2)])"
    using c2 len by (rule slow_loop_step)
  also have "\<dots> = Inr (c * 2 * 2 ^ k, (fs @ [Atempo (1 / 2)]) @ replicate k (Atempo (1 / 2)))"
    using a b l by (rule Suc.IH)
  finally show ?case by (simp add: replicate_app_Cons_same mult.assoc)
qed

lemma slow_loop_nonpos: "c \<le> 0 \<Longrightarrow> slow_loop cap c fs = Inl RangeError"
proof (induction "cap - length fs" arbitrary: c fs)
  case 0
  then have "\<not> length fs < cap" by simp
  moreover have "c < 1 / 2" using "0.prems" by simp
  ultimately show ?case by (rule slow_loop_full[rotated])
next
  case (Suc n)
  then have len: "length fs < cap" by simp
  have c2: "c < 1 / 2" using Suc.prems by simp
  have "n = cap - length (fs @ [Atempo (1 / 2)])" using Suc.hyps(2) by simp
  moreover have "c * 2 \<le> 0" using Suc.prems by simp
  ultimately have "slow_loop cap (c * 2) (fs @ [Atempo (1 / 2)]) = Inl RangeError"
    by (rule Suc.hyps(1))
  then show ?case using slow_loop_step[OF c2 len] by simp
qed

lemma one_less_log:
  assumes "2 < (x::real)"
  shows "1 < log 2 x"
proof -
  have "log 2 2 < log 2 x" using assms by (simp del: log_eq_one)
  then show ?thesis by simp
qed

lemma ceil_log_bounds:
  assumes "2 < (x::real)"
  defines "n \<equiv> nat \<lceil>log 2 x\<rceil>"
  shows "2 \<le> n" and "2 ^ (n - 1) < x" and "x \<le> 2 ^ n"
proof -
  have x0: "0 < x" using assms(1) by simp
  have l1: "1 < log 2 x" using assms(1) by (rule one_less_log)
  then have "2 \<le> \<lceil>log 2 x\<rceil>" by linarith
  then show n2: "2 \<le> n" unfolding n_def by linarith
  have rn: "real n = of_int \<lceil>log 2 x\<rceil>" unfolding n_def using l1 by (simp add: of_nat_nat)
  have up: "log 2 x \<le> real n" unfolding rn by linarith
  have lo: "real (n - 1) < log 2 x"
  proof -
    have "real (n - 1) = real n - 1" using n2 by (simp add: of_nat_diff)
    then show ?thesis unfolding rn by linarith
  qed
  have "2 powr real (n - 1) < 2 powr log 2 x" using lo by simp
  then show "2 ^ (n - 1) < x" using x0 by (simp add: powr_realpow)
  have "2 powr log 2 x \<le> 2 powr real n" using up by simp
  then show "x \<le> 2 ^ n" using x0 by (simp add: powr_realpow)
qed

lemma stage_count_big:
  assumes "2 < r"
  shows "stage_count r = nat \<lceil>log 2 r\<rceil>"
proof -
  have "1 < log 2 r" using assms by (rule one_less_log)
  then have "\<bar>log 2 r\<bar> = log 2 r" and "1 \<le> nat \<lceil>log 2 r\<rceil>" by linarith+
  then show ?thesis by (simp add: stage_count_def)
qed

lemma stage_count_small:
  assumes "0 < r" and "r < 1 / 2"
  shows "stage_count r = nat \<lceil>log 2 (1 / r)\<rceil>"
proof -
  have "2 < 1 / r" using assms by (simp add: pos_less_divide_eq)
  then have l: "1 < log 2 (1 / r)" by (rule one_less_log)
  have e: "log 2 (1 / r) = - log 2 r" using assms(1) by (simp add: log_divide)
  from l e have "\<bar>log 2 r\<bar> = log 2 (1 / r)" and "1 \<le> nat \<lceil>log 2 (1 / r)\<rceil>" by linarith+
  then show ?thesis by (simp add: stage_count_def)
qed

lemma stage_count_middle:
  assumes "1 / 2 \<le> r" and "r \<le> 2"
  shows "stage_count r = 1"
proof -
  have r0: "0 < r" using assms(1) by simp
  have "log 2 r \<le> log 2 2" using assms(2) r0 by (simp del: log_eq_one)
  then have up: "log 2 r \<le> 1" by simp
  have "log 2 (1 / 2) \<le> log 2 r" using assms(1) r0 by (simp del: log_eq_one)
  moreover have "log 2 (1 / 2) = - 1" by (simp add: log_divide)
  ultimately have "- 1 \<le> log 2 r" by simp
  with up have "\<bar>log 2 r\<bar> \<le> 1" by simp
  then have "\<lceil>\<bar>log 2 r\<bar>\<rceil> \<le> 1" by linarith
  then show ?thesis by (simp add: stage_count_def)
qed

lemma big_bounds:
  assumes "2 < r"
  shows "r / 2 ^ (stage_count r - 1) \<le> 2"
    and "1 < r / 2 ^ (stage_count r - 1)"
    and "stage_count r - 1 = 0 \<or> 2 < r / 2 ^ (stage_count r - 1 - 1)"
proof -
  define n where "n = stage_count r"
  have n: "n = nat \<lceil>log 2 r\<rceil>" by (simp add: n_def stage_count_big[OF assms])
  note b = ceil_log_bounds[OF assms, folded n]
  from b(1) obtain m where m: "n = Suc (Suc m)"
    by (metis numeral_2_eq_2 add_2_eq_Suc le_Suc_ex)
  have p: "(0::real) < 2 ^ m" by simp
  show "r / 2 ^ (stage_count r - 1) \<le> 2"
    using b(3) p by (simp add: n_def[symmetric] m field_simps)
  show "1 < r / 2 ^ (stage_count r - 1)"
    using b(2) p by (simp add: n_def[symmetric] m field_simps)
  show "stage_count r - 1 = 0 \<or> 2 < r / 2 ^ (stage_count r - 1 - 1)"
    using b(2) p by (simp add: n_def[symmetric] m field_simps)
qed

lemma small_bounds:
  assumes "0 < r" and "r < 1 / 2"
  shows "1 / 2 \<le> r * 2 ^ (stage_count r - 1)"
    and "r * 2 ^ (stage_count r - 1) < 1"
    and "stage_count r - 1 = 0 \<or> r * 2 ^ (stage_count r - 1 - 1) < 1 / 2"
proof -
  define n where "n = stage_count r"
  have inv: "2 < 1 / r" using assms by (simp add: pos_less_divide_eq)
  have n: "n = nat \<lceil>log 2 (1 / r)\<rceil>" by (simp add: n_def stage_count_small[OF assms])
  note b = ceil_log_bounds[OF inv, folded n]
  from b(1) obtain m where m: "n = Suc (Suc m)"
    by (metis numeral_2_eq_2 add_2_eq_Suc le_Suc_ex)
  have p: "(0::real) < 2 ^ m" by simp
  show "1 / 2 \<le> r * 2 ^ (stage_count r - 1)"
    using b(3) p assms(1) by (simp add: n_def[symmetric] m field_simps)
  show "r * 2 ^ (stage_count r - 1) < 1"
    using b(2) p assms(1) by (simp add: n_def[symmetric] m field_simps)
  show "stage_count r - 1 = 0 \<or> r * 2 ^ (stage_count r - 1 - 1) < 1 / 2"
    using b(2) p assms(1) by (simp add: n_def[symmetric] m field_simps)
qed

lemma stage_count_pos: "1 \<le> stage_count r"
  by (simp add: stage_count_def)

lemma changeSpeed_filters_exact:
  assumes pos: "0 < r" and fits: "stage_count r \<le> cap"
  shows "changeSpeed_filters cap r = Inr (expected_filters r)"
proof -
  define k where "k = stage_count r - 1"
  have k: "k < cap" using fits stage_count_pos[of r] by (simp add: k_def)
  consider (big) "2 < r" | (small) "r < 1 / 2" | (middle) "1 / 2 \<le> r" "r \<le> 2"
    by linarith
  then show ?thesis
  proof cases
    case big
    note b = big_bounds[OF big, folded k_def]
    have f: "fast_loop cap r [] = Inr (r / 2 ^ k, [] @ replicate k (Atempo 2))"
      using b(1) b(3) k by (intro fast_loop_run) simp_all
    have "1 / 2 \<le> r / 2 ^ k" using b(2) by linarith
    then have s: "slow_loop cap (r / 2 ^ k) (replicate k (Atempo 2))
               = Inr (r / 2 ^ k, replicate k (Atempo 2))"
      by (rule slow_loop_done)
    show ?thesis
      using f s big k by (simp add: changeSpeed_filters_def push_def expected_filters_def k_def)
  next
    case small
    note b = small_bounds[OF pos small, folded k_def]
    have f: "fast_loop cap r [] = Inr (r, [])" using small by (intro fast_loop_done) simp
    have s: "slow_loop cap r [] = Inr (r * 2 ^ k, [] @ replicate k (Atempo (1 / 2)))"
      using b(1) b(3) k by (intro slow_loop_run) simp_all
    have "\<not> 2 < r" using small by simp
    then show ?thesis
      using f s k by (simp add: changeSpeed_filters_def push_def expected_filters_def k_def)
  next
    case middle
    have n: "stage_count r = 1" by (rule stage_count_middle[OF middle])
    have f: "fast_loop cap r [] = Inr (r, [])" using middle by (intro fast_loop_done)
    have s: "slow_loop cap r [] = Inr (r, [])" using middle by (intro slow_loop_done)
    have "0 < cap" using fits n by simp
    moreover have "\<not> 2 < r" using middle by simp
    ultimately show ?thesis
      using f s n by (simp add: changeSpeed_filters_def push_def expected_filters_def)
  qed
qed

lemma expected_filters_ok:
  assumes pos: "0 < r"
  shows "list_all stage_ok (expected_filters r)"
proof -
  consider (big) "2 < r" | (small) "r < 1 / 2" | (middle) "1 / 2 \<le> r" "r \<le> 2"
    by linarith
  then show ?thesis
  proof cases
    case big
    from big_bounds(1,2)[OF big] big show ?thesis
      by (simp add: expected_filters_def stage_ok_def list_all_iff)
  next
    case small
    have "\<not> 2 < r" using small by simp
    with small_bounds(1,2)[OF pos small] show ?thesis
      by (simp add: expected_filters_def stage_ok_def list_all_iff)
  next
    case middle
    have "\<not> 2 < r" using middle by simp
    with middle stage_count_middle[OF middle] show ?thesis
      by (simp add: expected_filters_def stage_ok_def)
  qed
qed

lemma changeSpeed_filters_nonpos:
  assumes "speed \<le> 0"
  shows "changeSpeed_filters cap speed = Inl RangeError"
proof -
  have "fast_loop cap speed [] = Inr (speed, [])" using assms by (intro fast_loop_done) simp
  then show ?thesis
    by (simp add: changeSpeed_filters_def slow_loop_nonpos[OF assms])
qed

lemma expected_filters_length: "length (expected_filters r) = stage_count r"
  by (simp add: expected_filters_def stage_count_def)


lemma expected_filters_product:
  assumes "0 < r"
  shows "stage_product (expected_filters r) = r"
proof -
  have "stage_product ([] @ replicate k (Atempo 2) @ [Atempo (r / 2 ^ k)]) = r" for k
    by (simp only: append_assoc[symmetric] stage_product_snoc stage_product_replicate)
       (simp add: stage_product_def)
  moreover have "stage_product ([] @ replicate k (Atempo (1 / 2)) @ [Atempo (r * 2 ^ k)]) = r" for k
    by (simp only: append_assoc[symmetric] stage_product_snoc stage_product_replicate)
       (simp add: stage_product_def power_one_over)
  ultimately show ?thesis by (simp add: expected_filters_def)
qed

lemma log2_8: "log 2 8 = 3"
proof -
  have "(3::real) \<le> log 2 8" by (subst le_log_iff) simp_all
  moreover have "log 2 8 \<le> (3::real)" by (subst log_le_iff) simp_all
  ultimately show ?thesis by simp
qed

lemma stage_count_8: "stage_count 8 = 3"
  by (simp add: stage_count_def log2_8)

lemma stage_count_eighth: "stage_count (1 / 8) = 3"
proof -
  have "log 2 (1 / 8) = - 3" by (simp add: log_divide log2_8)
  then show ?thesis by (simp add: stage_count_def)
qed

lemma stage_count_double:
  assumes "2 powr (- 1074) \<le> r" and "r \<le> 8"
  shows "stage_count r \<le> maxArrayLength"
proof -
  have pos: "0 < r" using assms(1) by (rule less_le_trans[rotated]) simp
  have lo: "- 1074 \<le> log 2 r" using assms(1) pos by (simp add: le_log_iff)
  have "log 2 r \<le> log 2 8" using assms(2) pos by simp
  then have "log 2 r \<le> 3" by (simp add: log2_8)
  with lo have "\<bar>log 2 r\<bar> \<le> 1074" by simp
  then have "\<lceil>\<bar>log 2 r\<bar>\<rceil> \<le> 1074" by linarith
  then have "stage_count r \<le> 1074" by (simp add: stage_count_def)
  also have "(1074::nat) \<le> maxArrayLength" by (simp add: maxArrayLength_def)
  finally show ?thesis .
qed

text \<open>
  C7. For every speed ratio \<open>r\<close> with \<open>0 < r \<le> 8\<close> whose stages fit into an array, the
  loops return a stage list whose ratios multiply to \<open>r\<close> (exactly, over the reals) and
  each of which lies in \<open>[1/2, 2]\<close>. By \<open>stage_count_double\<close> the stages fit for every
  \<open>r\<close> in that range that is at least \<open>2^(-1074)\<close>, the smallest positive floating
  point number.
\<close>

theorem speed_decomposition:
  assumes "0 < r" and "r \<le> 8" and "stage_count r \<le> cap"
  shows "\<exists>fs. changeSpeed_filters cap r = Inr fs \<and> stage_product fs = r
           \<and> (\<forall>f \<in> set fs. 1 / 2 \<le> tempo f \<and> tempo f \<le> 2)"
proof -
  have e: "changeSpeed_filters cap r = Inr (expected_filters r)"
    using assms(1,3) by (rule changeSpeed_filters_exact)
  have ok: "\<forall>f \<in> set (expected_filters r). 1 / 2 \<le> tempo f \<and> tempo f \<le> 2"
    using expected_filters_ok[OF assms(1)] by (simp add: list_all_iff stage_ok_def)
  show ?thesis using e expected_filters_product[OF assms(1)] ok by blast
qed

theorem speed_decomposition_witness:
  "(0::real) < 8 \<and> (8::real) \<le> 8 \<and> stage_count 8 \<le> 3
    \<and> changeSpeed_filters 3 8 = Inr [Atempo 2, Atempo 2, Atempo 2]
    \<and> stage_product [Atempo 2, Atempo 2, Atempo 2] = 8"
  using speed_decomposition[of 8 3]
  by (simp add: stage_count_8 changeSpeed_filters_def fast_loop_step fast_loop_done
        slow_loop_done push_def stage_product_def)

text \<open>
  C10 (as the code has it). For every \<open>r > 0\<close> whose stages fit into an array the loops
  of \<open>changeSpeed\<close> return, and they emit exactly \<open>max 1 \<lceil>|log\<^sub>2 r|\<rceil>\<close> stages, namely
  those of \<open>expected_filters\<close>. For every \<open>r \<le> 0\<close> the doubling loop never reaches its
  exit condition; it ends when \<open>filters.push\<close> fails on the full array, and the call is
  rejected with a \<open>RangeError\<close>. The function takes any number as \<open>speed\<close> and does not
  test it.
\<close>

theorem changeSpeed_termination:
  "(0 < r \<and> stage_count r \<le> cap \<longrightarrow>
      changeSpeed_filters cap r = Inr (expected_filters r)
      \<and> length (expected_filters r) = max 1 (nat \<lceil>\<bar>log 2 r\<bar>\<rceil>))
   \<and> (r \<le> 0 \<longrightarrow> changeSpeed_filters cap r = Inl RangeError)"
  using changeSpeed_filters_exact[of r cap] changeSpeed_filters_nonpos[of r cap]
  by (simp add: expected_filters_length) (simp add: stage_count_def)

theorem changeSpeed_termination_witness:
  "(0::real) < 1 / 8 \<and> stage_count (1 / 8) \<le> 3
   \<and> changeSpeed_filters 3 (1 / 8) = Inr [Atempo (1 / 2), Atempo (1 / 2), Atempo (1 / 2)]
   \<and> (0::real) \<le> 0 \<and> changeSpeed_filters 3 0 = Inl RangeError"
proof -
  have p: "(0::real) < 1 / 8" by simp
  have c: "stage_count (1 / 8) \<le> 3" by (simp add: stage_count_eighth)
  from changeSpeed_termination[of "1 / 8" 3] p c
  have a: "changeSpeed_filters 3 (1 / 8) = Inr (expected_filters (1 / 8))" by blast
  have e: "expected_filters (1 / 8) = [Atempo (1 / 2), Atempo (1 / 2), Atempo (1 / 2)]"
    by (simp add: expected_filters_def stage_count_eighth eval_nat_numeral)
  from changeSpeed_termination[of 0 3]
  have b: "changeSpeed_filters 3 0 = Inl RangeError" by simp
  show ?thesis using p c a e b by simp
qed

text \<open>
  C10 as stated fails: for the speed 0 the doubling loop does exit, by the \<open>RangeError\<close>
  of \<open>push\<close>, and the call has an outcome.
\<close>

theorem changeSpeed_zero_exits_counterexample:
  "changeSpeed_filters maxArrayLength 0 = Inl RangeError"
  by (rule changeSpeed_filters_nonpos) simp



section \<open>Properties of the envelope actions\<close>

lemma saveToHistory_other [simp]:
  "duration (saveToHistory s) = duration s"
  "cursorPosition (saveToHistory s) = cursorPosition s"
  by (simp_all add: saveToHistory_def Let_def)

lemma times_ascending_sort:
  "times_ascending (t\<lparr>envelopePoints := sort_key time ps\<rparr>)"
  by (simp add: times_ascending_def)

lemma times_ascending_filter:
  "times_ascending t \<Longrightarrow> times_ascending (t\<lparr>envelopePoints := filter P (envelopePoints t)\<rparr>)"
  by (simp add: times_ascending_def sorted_filter)

lemma addEnvelopePoint_ascending:
  "list_all times_ascending (tracks s) \<Longrightarrow>
   list_all times_ascending (tracks (addEnvelopePoint newId trackId tm vol s))"
  by (auto simp: addEnvelopePoint_def Let_def list_all_iff times_ascending_sort)

lemma updateEnvelopePoint_ascending:
  "list_all times_ascending (tracks s) \<Longrightarrow>
   list_all times_ascending (tracks (updateEnvelopePoint trackId pointId updates s))"
  by (auto simp: updateEnvelopePoint_def list_all_iff times_ascending_sort)

lemma removeEnvelopePoint_ascending:
  "list_all times_ascending (tracks s) \<Longrightarrow>
   list_all times_ascending (tracks (removeEnvelopePoint trackId pointId s))"
  by (auto simp: removeEnvelopePoint_def Let_def list_all_iff times_ascending_filter)

lemma apply_envelope_op_ascending:
  "list_all times_ascending (tracks s) \<Longrightarrow>
   list_all times_ascending (tracks (apply_envelope_op s op))"
  by (cases op)
     (simp_all add: addEnvelopePoint_ascending updateEnvelopePoint_ascending
        removeEnvelopePoint_ascending)

lemma tracks_oneTrack:
  "tracks oneTrack = [\<lparr>track_id = ''t1'', track_take = sampleTake, offset = 0,
      track_duration = 10, muted = False, solo = False, track_volume = 1, gain = 0,
      regions = [], envelopePoints = []\<rparr>]"
  by (simp add: oneTrack_def addTrack_def Let_def initialState_def maxEnd_def sampleTake_def)

text \<open>
  C5 (as the code has it). If every track's \<open>envelopePoints\<close> list is sorted ascending by
  time, it is so again after any finite sequence of \<open>addEnvelopePoint\<close>,
  \<open>updateEnvelopePoint\<close> and \<open>removeEnvelopePoint\<close> calls. Nothing is said about equal
  times: the actions keep every point.
\<close>

theorem envelope_points_stay_sorted:
  "list_all times_ascending (tracks s) \<Longrightarrow>
   list_all times_ascending (tracks (apply_envelope_ops ops s))"
  unfolding apply_envelope_ops_def
  by (induction ops arbitrary: s) (simp_all add: apply_envelope_op_ascending)

theorem envelope_points_stay_sorted_witness:
  "list_all times_ascending (tracks oneTrack)
   \<and> list_all times_ascending
       (tracks (apply_envelope_ops
          [AddPoint ''p1'' ''t1'' 3 0, AddPoint ''p2'' ''t1'' 1 (- 6), RemovePoint ''t1'' ''p1''] oneTrack))"
proof -
  have h: "list_all times_ascending (tracks oneTrack)"
    by (simp add: tracks_oneTrack times_ascending_def)
  from envelope_points_stay_sorted[OF h] h show ?thesis by simp
qed

text \<open>
  C5 as stated fails: adding two points with the same time to a track leaves both in
  the list, so the times are not duplicate-free and the later write does not replace the
  earlier one.
\<close>

theorem envelope_duplicate_times_counterexample:
  "\<not> list_all times_distinct
       (tracks (apply_envelope_ops
          [AddPoint ''p1'' ''t1'' 1 0, AddPoint ''p2'' ''t1'' 1 (- 6)] oneTrack))"
  by (simp add: apply_envelope_ops_def addEnvelopePoint_def Let_def tracks_oneTrack
        times_distinct_def)


section \<open>Which actions take a snapshot\<close>

text \<open>
  C4 (as the code has it). \<open>addTrack\<close>, \<open>removeTrack\<close>, \<open>setTracks\<close>, \<open>clearTracks\<close>,
  \<open>addEnvelopePoint\<close> and \<open>removeEnvelopePoint\<close> leave the history exactly as
  \<open>saveToHistory\<close> applied to the state before the call leaves it (so the snapshot is
  taken before the mutation and holds the old timeline), and so does \<open>splitAtCursor\<close>
  whenever it changes anything; \<open>updateTrack\<close> and \<open>updateEnvelopePoint\<close> do not touch the
  history.
\<close>

theorem snapshot_before_mutation:
  "history_of (addTrack newId tk s) = history_of (saveToHistory s)
   \<and> history_of (removeTrack trackId s) = history_of (saveToHistory s)
   \<and> history_of (setTracks ts s) = history_of (saveToHistory s)
   \<and> history_of (clearTracks s) = history_of (saveToHistory s)
   \<and> history_of (addEnvelopePoint newId trackId tm vol s) = history_of (saveToHistory s)
   \<and> history_of (removeEnvelopePoint trackId pointId s) = history_of (saveToHistory s)
   \<and> (splitAtCursor newId s = s \<or> history_of (splitAtCursor newId s) = history_of (saveToHistory s))
   \<and> history_of (updateTrack trackId updates s) = history_of s
   \<and> history_of (updateEnvelopePoint trackId pointId pupdates s) = history_of s"
  by (simp add: history_of_def addTrack_def removeTrack_def setTracks_def clearTracks_def
        addEnvelopePoint_def removeEnvelopePoint_def splitAtCursor_def updateTrack_def
        updateEnvelopePoint_def Let_def split: option.split)

text \<open>
  C4 as stated fails for \<open>updateTrack\<close>: muting the track changes the timeline but the
  history is not the one a snapshot before the mutation would give.
\<close>

theorem updateTrack_no_snapshot_counterexample:
  "tracks (updateTrack ''t1'' muteUpdate oneTrack) \<noteq> tracks oneTrack
   \<and> history_of (updateTrack ''t1'' muteUpdate oneTrack) \<noteq> history_of (saveToHistory oneTrack)"
  by (simp add: updateTrack_def tracks_oneTrack mergeTrack_def override_def muteUpdate_def
        history_of_def oneTrack_def addTrack_def saveToHistory_def Let_def initialState_def
        slice0_def)


section \<open>Undo and redo after two edits\<close>

text \<open>
  C1 on the code, at the initial store state with \<open>addTrack\<close> as both mutations (it calls
  \<open>saveToHistory\<close> itself before it changes the tracks): \<open>undo\<close> does not stop at the state
  after the first \<open>addTrack\<close> but restores the state before it, and the following \<open>redo\<close>
  gives the state after the first \<open>addTrack\<close>, not the one after the second.
\<close>

theorem undo_skips_a_state:
  "(let s1 = addTrack ''t1'' sampleTake initialState;
        s2 = addTrack ''t2'' sampleTake s1
    in case undo s2 of
         Inl e \<Rightarrow> False
       | Inr u \<Rightarrow>
           snapshot u = snapshot initialState \<and> snapshot u \<noteq> snapshot s1
           \<and> (case redo u of
                 Inl e \<Rightarrow> False
               | Inr r \<Rightarrow> snapshot r = snapshot s1 \<and> snapshot r \<noteq> snapshot s2))"
  by (simp add: addTrack_def saveToHistory_def Let_def initialState_def maxEnd_def
        sampleTake_def slice0_def undo_def redo_def restore_def snapshot_def)



text \<open>
  The same holds from every state and for any two mutations that leave the history
  alone: after \<open>saveToHistory; A; saveToHistory; B\<close>, \<open>undo\<close> restores the timeline
  that was live before \<open>A\<close>, and \<open>redo\<close> then restores the one after \<open>A\<close>.
\<close>

lemma saveToHistory_last: "last (history (saveToHistory s)) = snapshot s"
proof (cases "history s = []")
  case True
  then show ?thesis by (simp add: saveToHistory_def)
next
  case False
  let ?pushed = "slice0 (history s) (historyIndex s + 1) @ [snapshot s]"
  show ?thesis
  proof (cases "length ?pushed > 50")
    case True
    then have "tl ?pushed \<noteq> []" by (cases ?pushed) auto
    then have "last (tl ?pushed) = last ?pushed" by (simp add: last_tl)
    with True False show ?thesis by (simp add: saveToHistory_def Let_def)
  next
    case F: False
    with False show ?thesis by (simp add: saveToHistory_def Let_def)
  qed
qed

lemma push_at_end:
  assumes "history s \<noteq> []" and "historyIndex s = int (length (history s)) - 1"
  shows "history (saveToHistory s) =
           (if length (history s) \<ge> 50 then tl (history s) @ [snapshot s]
            else history s @ [snapshot s])"
  using assms by (cases "history s") (simp_all add: saveToHistory_def Let_def slice0_def)

lemma undo_after_two_saves:
  assumes A: "keeps_history mutateA" and B: "keeps_history mutateB"
  shows "\<exists>u. undo (mutateB (saveToHistory (mutateA (saveToHistory s0)))) = Inr u
           \<and> snapshot u = snapshot s0
           \<and> (\<exists>r. redo u = Inr r \<and> snapshot r = snapshot (mutateA (saveToHistory s0)))"
proof -
  let ?s1 = "saveToHistory s0"
  let ?s2 = "mutateA ?s1"
  let ?s3 = "saveToHistory ?s2"
  let ?s4 = "mutateB ?s3"
  let ?H1 = "history ?s1"
  have h2: "history ?s2 = ?H1" "historyIndex ?s2 = historyIndex ?s1"
    using A by (simp_all add: keeps_history_def history_of_def)
  have ne1: "?H1 \<noteq> []" by (rule saveToHistory_nonempty)
  have i1: "historyIndex ?s1 = int (length ?H1) - 1" by (rule saveToHistory_index)
  have last1: "last ?H1 = snapshot s0" by (rule saveToHistory_last)
  define H' where "H' = (if length ?H1 \<ge> 50 then tl ?H1 else ?H1)"
  have H3: "history ?s3 = H' @ [snapshot ?s2]"
    using push_at_end[of ?s2] h2 ne1 i1 by (simp add: H'_def)
  have ne': "H' \<noteq> []"
    using ne1 by (cases ?H1) (auto simp: H'_def dest: arg_cong[where f = length])
  have last': "last H' = snapshot s0"
    using last1 ne' by (auto simp: H'_def last_tl)
  have i3: "historyIndex ?s3 = int (length H')"
    using saveToHistory_index[of ?s2] H3 by simp
  have h4: "history ?s4 = H' @ [snapshot ?s2]" "historyIndex ?s4 = int (length H')"
    using B H3 i3 by (simp_all add: keeps_history_def history_of_def)
  have pos: "0 < length H'" using ne' by simp
  have nth: "(H' @ [snapshot ?s2]) ! (length H' - 1) = last H'"
    using ne' by (simp add: nth_append last_conv_nth)
  have n: "nat (int (length H') - 1) = length H' - 1" by simp
  define u where "u = ?s4\<lparr>tracks := h_tracks (snapshot s0),
      selectedTrackId := h_selectedTrackId (snapshot s0),
      selectedRegionStart := h_selectedRegionStart (snapshot s0),
      selectedRegionEnd := h_selectedRegionEnd (snapshot s0),
      historyIndex := int (length H') - 1\<rparr>"
  have un: "undo ?s4 = Inr u"
    using h4 pos nth last' n by (simp add: undo_def restore_def Let_def u_def)
  have su: "snapshot u = snapshot s0" by (simp add: u_def snapshot_def)
  have hu: "history u = H' @ [snapshot ?s2]" "historyIndex u = int (length H') - 1"
    using h4 by (simp_all add: u_def)
  have "\<exists>r. redo u = Inr r \<and> snapshot r = snapshot ?s2"
    using hu by (simp add: redo_def restore_def Let_def snapshot_def)
  with un su show ?thesis by blast
qed


section \<open>Properties of the selection pipeline\<close>

lemma show_nat_7: "show_nat 7 = ''7''"
  by (simp add: show_nat.simps)

lemma tempDir_out: "tempDirOf ''/rec/out.wav'' = ''/rec/''"
  by (simp add: tempDirOf_def is_separator_def)

lemmas io_defs = io_bind_def io_return_def io_throw_def io_finally_def logged_def run_ffmpeg_def
  trim_def getDuration_def copyFileSync_def writeFileSync_def removed_def unlink_quiet_def

lemma tempPaths:
  "tempPath ''/rec/out.wav'' ''before'' 7 = ''/rec/temp_before_7.wav''"
  "tempPath ''/rec/out.wav'' ''after'' 7 = ''/rec/temp_after_7.wav''"
  "tempPath ''/rec/out.wav'' ''selection'' 7 = ''/rec/temp_selection_7.wav''"
  "tempPath ''/rec/out.wav'' ''selection_processed'' 7 = ''/rec/temp_selection_processed_7.wav''"
  by (simp_all add: tempPath_def tempDir_out show_nat_7)


text \<open>
  C3 on the code: the track lasts ten seconds, the range from 3 to 6 is deleted (the
  middle branch), both trims succeed and the concatenation fails. \<open>deleteSelection\<close>
  ends with the engine's error and both temporaries are still on disk; the same run of
  \<open>applyEffectToSelection\<close> leaves its temporaries behind as well. The \<open>unlinkSync\<close>
  calls come after the \<open>await\<close> of the concatenation and are skipped when it throws.
\<close>

theorem temporaries_survive_failed_concat:
  "fst (deleteSelection (concat_fails 10) 7 ''/rec/a.wav'' ''/rec/out.wav'' 3 6 disk)
     = Inl (Error ''concat failed'')
   \<and> ''/rec/temp_before_7.wav''
        \<in> files (snd (deleteSelection (concat_fails 10) 7 ''/rec/a.wav'' ''/rec/out.wav'' 3 6 disk))
   \<and> ''/rec/temp_after_7.wav''
        \<in> files (snd (deleteSelection (concat_fails 10) 7 ''/rec/a.wav'' ''/rec/out.wav'' 3 6 disk))
   \<and> fst (applyEffectToSelection (concat_fails 10) 7 ''/rec/a.wav'' ''/rec/out.wav'' 3 6
             ''volume=6dB'' disk)
     = Inl (Error ''concat failed'')
   \<and> ''/rec/temp_before_7.wav''
        \<in> files (snd (applyEffectToSelection (concat_fails 10) 7 ''/rec/a.wav'' ''/rec/out.wav''
                         3 6 ''volume=6dB'' disk))"
  by (simp add: deleteSelection_def applyEffectToSelection_def concatenate_def concat_fails_def
        disk_def io_defs tempPaths Let_def)

text \<open>
  C8. When the probe reports the duration and the range has \<open>startTime \<le> 0\<close> and
  \<open>endTime\<close> at or beyond that duration, the \<open>audio:deleteSelection\<close> handler returns
  \<open>{success: false, error: 'Cannot delete entire audio'}\<close> (the code's invalid-selection
  error); the engine was only probed, and the set of files is unchanged, so there is no
  output file.
\<close>

theorem deleteSelection_whole_track:
  assumes "ffprobe E inputPath = Inr d"
    and "startTime \<le> 0"
    and "endTime \<ge> (case d of None \<Rightarrow> 0 | Some x \<Rightarrow> x)"
  shows "ipc_deleteSelection E stamp inputPath outputPath startTime endTime w
           = (Failure ''Cannot delete entire audio'', logged (FfProbe inputPath) w)
         \<and> files (snd (ipc_deleteSelection E stamp inputPath outputPath startTime endTime w))
             = files w"
  using assms
  by (simp add: ipc_deleteSelection_def ipc_handle_def deleteSelection_def getDuration_def
        io_bind_def io_throw_def logged_def)

theorem deleteSelection_whole_track_witness:
  "ffprobe (reliable 10) ''/rec/a.wav'' = Inr (Some 10) \<and> (0::real) \<le> 0
   \<and> (10::real) \<ge> (case Some 10 of None \<Rightarrow> 0 | Some x \<Rightarrow> x)
   \<and> ipc_deleteSelection (reliable 10) 7 ''/rec/a.wav'' ''/rec/out.wav'' 0 10 disk
       = (Failure ''Cannot delete entire audio'',
          \<lparr>files = {''/rec/a.wav''}, calls = [FfProbe ''/rec/a.wav'']\<rparr>)"
proof -
  have p: "ffprobe (reliable 10) ''/rec/a.wav'' = Inr (Some 10)" by (simp add: reliable_def)
  have e: "(10::real) \<ge> (case Some 10 of None \<Rightarrow> 0 | Some x \<Rightarrow> x)" by simp
  from deleteSelection_whole_track[OF p _ e, of 0 7 "''/rec/out.wav''" disk] p
  show ?thesis by (simp add: logged_def disk_def)
qed

text \<open>
  C9 on the code: with the track at offset 0 lasting ten seconds and the selection from 5
  to 5, \<open>applyEffect\<close> passes the range \<open>(5, 5)\<close> on, the pipeline trims a selection of
  duration 0, filters it and concatenates, and the handler reports success; nothing is
  rejected. \<open>handleTrimToSelection\<close> refuses the same selection. A selection from 12 to 15
  is passed on as \<open>(12, 10)\<close>: the start is only bounded below and the end only above.
\<close>

theorem zero_length_selection_is_processed:
  "applyEffect_range sampleTrack 5 5 = (5, 5)
   \<and> fst (applyEffect_on_selection (reliable 10) 7 sampleTrack 5 5 ''/rec/out.wav''
            ''volume=6dB'' disk) = Success ''/rec/out.wav''
   \<and> calls (snd (applyEffect_on_selection (reliable 10) 7 sampleTrack 5 5 ''/rec/out.wav''
            ''volume=6dB'' disk))
       = [FfProbe ''/rec/a.wav'',
          FfTrim ''/rec/a.wav'' ''/rec/temp_before_7.wav'' 0 5,
          FfTrim ''/rec/a.wav'' ''/rec/temp_selection_7.wav'' 5 0,
          FfFilter ''/rec/temp_selection_7.wav'' ''/rec/temp_selection_processed_7.wav''
            ''volume=6dB'',
          FfTrim ''/rec/a.wav'' ''/rec/temp_after_7.wav'' 5 5,
          FfConcat [''/rec/temp_before_7.wav'', ''/rec/temp_selection_processed_7.wav'',
            ''/rec/temp_after_7.wav''] ''/rec/out.wav'']
   \<and> handleTrimToSelection_range sampleTrack 5 5 = None
   \<and> applyEffect_range sampleTrack 12 15 = (12, 10)"
  by (simp add: applyEffect_on_selection_def applyEffect_range_def sampleTrack_def
        sampleTake_def ipc_applyEffectToSelection_def ipc_handle_def applyEffectToSelection_def
        concatenate_def reliable_def disk_def io_defs tempPaths Let_def
        handleTrimToSelection_range_def)


section \<open>Properties of the envelope compilation\<close>

lemma text_of_append: "text_of (ps @ qs) = text_of ps @ text_of qs"
  by (induction ps rule: text_of.induct) simp_all

lemma depth_after_append:
  "depth_after d (xs @ ys) =
     (case depth_after d xs of None \<Rightarrow> None | Some d' \<Rightarrow> depth_after d' ys)"
  by (induction xs arbitrary: d) (simp_all split: nat.split)

lemma depth_after_closers:
  "depth_after d (text_of (replicate n (Text '')''))) = (if n \<le> d then Some (d - n) else None)"
proof (induction n arbitrary: d)
  case 0
  then show ?case by simp
next
  case (Suc n)
  then show ?case by (cases d) simp_all
qed

lemma depth_after_loop:
  "volumePoints \<noteq> [] \<Longrightarrow>
   depth_after d (text_of (envelope_loop first volumePoints)) =
     Some (d + (if first \<and> pt_time (hd volumePoints) > 0 then 1 else 0)
             + (length volumePoints - 1))"
proof (induction volumePoints arbitrary: d first)
  case Nil
  then show ?case by simp
next
  case (Cons point rest)
  show ?case
  proof (cases rest)
    case Nil
    then show ?thesis by (simp add: Let_def)
  next
    case (Cons nextPoint more)
    then have ne: "rest \<noteq> []" by simp
    from Cons.IH[OF ne, of _ False] Cons
    show ?thesis by (simp add: Let_def text_of_append depth_after_append)
  qed
qed

lemma volumeExpr_bracketing:
  assumes "volumePoints \<noteq> []"
  shows "well_bracketed (volumeExpr volumePoints) = (pt_time (hd volumePoints) > 0)"
proof -
  have "0 < length volumePoints" using assms by simp
  then show ?thesis
    using depth_after_loop[OF assms, of 0 True]
    by (auto simp: well_bracketed_def volumeExpr_def text_of_append depth_after_append
          depth_after_closers)
qed

text \<open>
  C2 on the code: for the points \<open>(0, 0 dB)\<close> and \<open>(2, -12 dB)\<close> the compiled expression
  opens one conditional and ends in two closing parentheses, so it is not well
  bracketed. (By \<open>volumeExpr_bracketing\<close> this happens exactly when the first point does
  not lie after time 0.)
\<close>

theorem envelope_at_zero_unbalanced:
  "volumeExpr [\<lparr>pt_time = 0, pt_volume = 0\<rparr>, \<lparr>pt_time = 2, pt_volume = - 12\<rparr>] =
     [Text ''if(lt(t,'', Number 2, Text ''),'', Number (10 powr (0 / 20)), Text ''+('',
      Number (10 powr (- 12 / 20)), Text ''-'', Number (10 powr (0 / 20)), Text '')*(t-'',
      Number 0, Text '')/'', Number (2 - 0), Text '','', Number (10 powr (- 12 / 20)),
      Text '')'', Text '')'']
   \<and> \<not> well_bracketed
         (volumeExpr [\<lparr>pt_time = 0, pt_volume = 0\<rparr>, \<lparr>pt_time = 2, pt_volume = - 12\<rparr>])"
  by (simp add: volumeExpr_def well_bracketed_def Let_def)


end
